theory Spec2Isabelle
  imports Main
begin

section \<open>The form fixture generator (scripts/generate_simple_forms.py)\<close>

text \<open>
  The script builds four PDF documents by straight-line calls on a drawing canvas of a
  PDF library. The model keeps every call with the arguments the source passes, runs the
  calls in source order against an environment that decides which library call raises,
  and records what happened in a trace. A document is the list of calls its canvas
  received before it was saved. A run that ends in an exception saves no document: what
  it emitted is read from the trace, as the calls that were made on its canvas.
\<close>

subsection \<open>Field definitions: the keyword arguments of the form-widget calls\<close>

datatype color = black | blue | green | pink | magenta

datatype acroForm_method = textfield | checkbox | radio | choice

text \<open>
  One record for the keyword arguments of the four widget methods. \<open>name\<close>, \<open>x\<close> and
  \<open>y\<close> are passed by every call of the script; every other argument is \<open>None\<close> where the
  call does not pass it, so that the library's default applies.
\<close>

record kwargs =
  name :: string
  tooltip :: "string option"
  "value" :: "string option"
  selected :: "bool option"
  x :: int
  y :: int
  width :: "int option"
  height :: "int option"
  borderStyle :: "string option"
  buttonStyle :: "string option"
  shape :: "string option"
  textColor :: "color option"
  fillColor :: "color option"
  borderColor :: "color option"
  forceBorder :: "bool option"
  fieldFlags :: "string option"
  maxlen :: "int option"
  options :: "(string \<times> string) list option"

definition kw :: "string \<Rightarrow> int \<Rightarrow> int \<Rightarrow> kwargs" where
  "kw n a b =
     \<lparr>name = n, tooltip = None, value = None, selected = None, x = a, y = b,
      width = None, height = None, borderStyle = None, buttonStyle = None, shape = None,
      textColor = None, fillColor = None, borderColor = None, forceBorder = None,
      fieldFlags = None, maxlen = None, options = None\<rparr>"

type_synonym field = "acroForm_method \<times> kwargs"

subsection \<open>Canvas calls, events and the world\<close>

datatype canvas_call =
    Canvas "int \<times> int"
  | SetFont string int
  | DrawString int int string
  | Line int int int int
  | AcroForm acroForm_method kwargs
  | Save

datatype event =
    Makedirs string
  | Called string canvas_call
  | Raise string string
  | Print string

text \<open>
  The world: what has happened so far, the content of the files saved (the calls their
  canvas received) and, for each saved file, the creation date that the library wrote
  into its document information.
\<close>

record world =
  trace :: "event list"
  files :: "string \<rightharpoonup> canvas_call list"
  stamps :: "string \<rightharpoonup> string"

text \<open>
  The environment: \<open>raises\<close> says whether a library call on the canvas of a given output
  path raises an exception (with its message) in the current world; \<open>now\<close> is the text
  that \<open>datetime.now().strftime('%Y-%m-%d %H:%M:%S')\<close> yields; \<open>creation_date\<close> is the
  time of saving as the library writes it into every file; \<open>makedirs_raises\<close> says
  whether \<open>os.makedirs\<close> raises.
\<close>

record env =
  raises :: "world \<Rightarrow> string \<Rightarrow> canvas_call \<Rightarrow> string option"
  now :: string
  creation_date :: string
  makedirs_raises :: "string \<Rightarrow> string option"

datatype outcome = Ok | Raised string

text \<open>
  Modelled from the spec: the library's letter page size, 612 by 792 points (the
  constant \<open>reportlab.lib.pagesizes.letter\<close>, which is not part of this repository).
\<close>

definition letter :: "int \<times> int" where
  "letter = (612, 792)"

text \<open>
  Running the calls of one canvas in order. A call that raises ends the run; the calls
  made so far stay in the trace. \<open>Save\<close> writes the calls received so far to the path,
  with the library's creation date.
\<close>

fun run_calls :: "env \<Rightarrow> string \<Rightarrow> canvas_call list \<Rightarrow> canvas_call list \<Rightarrow> world
    \<Rightarrow> outcome \<times> world" where
  "run_calls e p doc [] w = (Ok, w)"
| "run_calls e p doc (k # ks) w =
     (case raises e w p k of
        Some msg \<Rightarrow> (Raised msg, w\<lparr>trace := trace w @ [Called p k, Raise p msg]\<rparr>)
      | None \<Rightarrow>
          run_calls e p (doc @ [k]) ks
            (w\<lparr>trace := trace w @ [Called p k],
               files := (if k = Save then (files w)(p \<mapsto> doc) else files w),
               stamps := (if k = Save then (stamps w)(p \<mapsto> creation_date e)
                          else stamps w)\<rparr>))"

text \<open>The shared shape of the four generators: run the calls, then print the confirmation.\<close>

definition generate :: "canvas_call list \<Rightarrow> env \<Rightarrow> string \<Rightarrow> world \<Rightarrow> outcome \<times> world" where
  "generate calls e output_path w =
     (case run_calls e output_path [] calls w of
        (Ok, w') \<Rightarrow> (Ok, w'\<lparr>trace := trace w' @ [Print (''Created: '' @ output_path)]\<rparr>)
      | (Raised msg, w') \<Rightarrow> (Raised msg, w'))"

subsection \<open>create_basic_form_pdf\<close>

definition basic_form_calls :: "canvas_call list" where
  "basic_form_calls =
     [Canvas letter,
      SetFont ''Helvetica'' 12,
      DrawString 50 750 ''Basic Form Example'',
      Line 50 745 550 745,
      DrawString 50 700 ''Name:'',
      AcroForm textfield ((kw ''name'' 150 695)
        \<lparr>tooltip := Some ''Enter your name'', borderStyle := Some ''inset'',
         width := Some 300, height := Some 20, textColor := Some black,
         fillColor := Some pink, borderColor := Some black, forceBorder := Some True\<rparr>),
      DrawString 50 650 ''Email:'',
      AcroForm textfield ((kw ''email'' 150 645)
        \<lparr>tooltip := Some ''Enter your email'', borderStyle := Some ''inset'',
         width := Some 300, height := Some 20, textColor := Some black,
         fillColor := Some pink, borderColor := Some black, forceBorder := Some True\<rparr>),
      DrawString 50 600 ''Subscribe:'',
      AcroForm checkbox ((kw ''subscribe'' 150 598)
        \<lparr>tooltip := Some ''Check to subscribe'', buttonStyle := Some ''check'',
         borderColor := Some black, fillColor := Some green, textColor := Some black,
         forceBorder := Some True\<rparr>),
      DrawString 50 550 ''Gender:'',
      AcroForm radio ((kw ''gender'' 150 548)
        \<lparr>tooltip := Some ''Select gender'', value := Some ''male'', selected := Some False,
         buttonStyle := Some ''circle'', borderStyle := Some ''solid'',
         shape := Some ''circle'', borderColor := Some black, fillColor := Some magenta,
         textColor := Some black, forceBorder := Some True\<rparr>),
      DrawString 175 550 ''Male'',
      AcroForm radio ((kw ''gender'' 250 548)
        \<lparr>tooltip := Some ''Select gender'', value := Some ''female'', selected := Some False,
         buttonStyle := Some ''circle'', borderStyle := Some ''solid'',
         shape := Some ''circle'', borderColor := Some black, fillColor := Some magenta,
         textColor := Some black, forceBorder := Some True\<rparr>),
      DrawString 275 550 ''Female'',
      DrawString 50 500 ''Country:'',
      AcroForm choice ((kw ''country'' 150 495)
        \<lparr>tooltip := Some ''Select your country'', value := Some ''us'',
         width := Some 200, height := Some 20,
         options := Some [(''us'', ''United States''), (''ca'', ''Canada''),
                          (''uk'', ''United Kingdom'')],
         borderColor := Some black, fillColor := Some pink, textColor := Some black,
         forceBorder := Some True\<rparr>),
      DrawString 50 400 ''Note: Submit buttons would go here in a real form'',
      Save]"

definition create_basic_form_pdf :: "env \<Rightarrow> string \<Rightarrow> world \<Rightarrow> outcome \<times> world" where
  "create_basic_form_pdf = generate basic_form_calls"

subsection \<open>create_text_fields_pdf\<close>

definition text_fields_calls :: "canvas_call list" where
  "text_fields_calls =
     [Canvas letter,
      SetFont ''Helvetica'' 12,
      DrawString 50 750 ''Text Field Examples'',
      Line 50 745 550 745,
      DrawString 50 700 ''Regular Text:'',
      AcroForm textfield ((kw ''regularText'' 200 695)
        \<lparr>tooltip := Some ''Regular text field'', width := Some 250, height := Some 20,
         borderStyle := Some ''inset''\<rparr>),
      DrawString 50 650 ''Required Field:'',
      AcroForm textfield ((kw ''requiredField'' 200 645)
        \<lparr>tooltip := Some ''This field is required'', width := Some 250, height := Some 20,
         borderStyle := Some ''inset'', fieldFlags := Some ''required''\<rparr>),
      DrawString 50 600 ''Max 10 chars:'',
      AcroForm textfield ((kw ''maxLengthField'' 200 595)
        \<lparr>tooltip := Some ''Maximum 10 characters'', width := Some 150, height := Some 20,
         borderStyle := Some ''inset'', maxlen := Some 10\<rparr>),
      DrawString 50 550 ''Comments:'',
      AcroForm textfield ((kw ''comments'' 200 470)
        \<lparr>tooltip := Some ''Multiline text field'', width := Some 250, height := Some 75,
         borderStyle := Some ''inset'', fieldFlags := Some ''multiline''\<rparr>),
      DrawString 50 430 ''Password:'',
      AcroForm textfield ((kw ''password'' 200 425)
        \<lparr>tooltip := Some ''Password field'', width := Some 250, height := Some 20,
         borderStyle := Some ''inset'', fieldFlags := Some ''password''\<rparr>),
      DrawString 50 380 ''Read-only:'',
      AcroForm textfield ((kw ''readOnly'' 200 375)
        \<lparr>tooltip := Some ''Read-only field'', width := Some 250, height := Some 20,
         borderStyle := Some ''inset'', fieldFlags := Some ''readOnly'',
         value := Some ''This cannot be changed''\<rparr>),
      Save]"

definition create_text_fields_pdf :: "env \<Rightarrow> string \<Rightarrow> world \<Rightarrow> outcome \<times> world" where
  "create_text_fields_pdf = generate text_fields_calls"

subsection \<open>create_choice_fields_pdf\<close>

text \<open>Python's \<open>str.lower\<close> on the ASCII letters, which is all the script applies it to.\<close>

definition lower_char :: "char \<Rightarrow> char" where
  "lower_char c =
     (case map_of (zip ''ABCDEFGHIJKLMNOPQRSTUVWXYZ'' ''abcdefghijklmnopqrstuvwxyz'') c of
        Some d \<Rightarrow> d
      | None \<Rightarrow> c)"

definition lower :: "string \<Rightarrow> string" where
  "lower s = map lower_char s"

definition options1 :: "(string \<times> string) list" where
  "options1 = [(''opt1'', ''Option 1''), (''opt2'', ''Option 2''), (''opt3'', ''Option 3'')]"

definition states :: "(string \<times> string) list" where
  "states =
     [('''', ''-- Select State --''),
      (''AL'', ''Alabama''), (''AK'', ''Alaska''), (''AZ'', ''Arizona''),
      (''AR'', ''Arkansas''), (''CA'', ''California''), (''CO'', ''Colorado''),
      (''CT'', ''Connecticut''), (''DE'', ''Delaware''), (''FL'', ''Florida''),
      (''GA'', ''Georgia''), (''HI'', ''Hawaii''), (''ID'', ''Idaho'')]"

definition sizes :: "(string \<times> int) list" where
  "sizes = [(''S'', 50), (''M'', 100), (''L'', 150), (''XL'', 200)]"

definition features :: "(string \<times> string \<times> int) list" where
  "features =
     [(''feature1'', ''Feature 1'', 0),
      (''feature2'', ''Feature 2'', 100),
      (''feature3'', ''Feature 3'', 200)]"

text \<open>The bodies of the two \<open>for\<close> loops: one widget call and one label per element.\<close>

definition size_calls :: "string \<times> int \<Rightarrow> canvas_call list" where
  "size_calls = (\<lambda>(v, x_offset).
     [AcroForm radio ((kw ''size'' (150 + x_offset) 588)
        \<lparr>tooltip := Some (''Size '' @ v), value := Some (lower v),
         selected := Some (v = ''M''), buttonStyle := Some ''circle''\<rparr>),
      DrawString (170 + x_offset) 590 v])"

definition feature_calls :: "string \<times> string \<times> int \<Rightarrow> canvas_call list" where
  "feature_calls = (\<lambda>(fname, label, x_offset).
     [AcroForm checkbox ((kw fname (150 + x_offset) 538)
        \<lparr>tooltip := Some label, buttonStyle := Some ''check''\<rparr>),
      DrawString (170 + x_offset) 540 label])"

definition choice_fields_calls :: "canvas_call list" where
  "choice_fields_calls =
     [Canvas letter,
      SetFont ''Helvetica'' 12,
      DrawString 50 750 ''Choice Field Examples'',
      Line 50 745 550 745,
      DrawString 50 700 ''Simple Dropdown:'',
      AcroForm choice ((kw ''simpleDropdown'' 200 695)
        \<lparr>tooltip := Some ''Select an option'', value := Some ''opt1'',
         width := Some 200, height := Some 20, options := Some options1\<rparr>),
      DrawString 50 650 ''State:'',
      AcroForm choice ((kw ''state'' 200 645)
        \<lparr>tooltip := Some ''Select your state'', value := Some '''',
         width := Some 200, height := Some 20, options := Some states\<rparr>),
      DrawString 50 590 ''Size:'']
     @ concat (map size_calls sizes)
     @ [DrawString 50 540 ''Features:'']
     @ concat (map feature_calls features)
     @ [Save]"

definition create_choice_fields_pdf :: "env \<Rightarrow> string \<Rightarrow> world \<Rightarrow> outcome \<times> world" where
  "create_choice_fields_pdf = generate choice_fields_calls"

subsection \<open>create_mixed_form_pdf\<close>

definition countries :: "(string \<times> string) list" where
  "countries =
     [('''', ''-- Select --''),
      (''us'', ''United States''),
      (''ca'', ''Canada''),
      (''mx'', ''Mexico''),
      (''uk'', ''United Kingdom''),
      (''de'', ''Germany''),
      (''fr'', ''France'')]"

text \<open>The calls of the mixed form; \<open>stamp\<close> is the formatted time of the footer.\<close>

definition mixed_form_calls :: "string \<Rightarrow> canvas_call list" where
  "mixed_form_calls stamp =
     [Canvas letter,
      SetFont ''Helvetica-Bold'' 14,
      DrawString 50 750 ''Registration Form'',
      Line 50 745 550 745,
      SetFont ''Helvetica'' 11,
      DrawString 50 720 ''First Name:'',
      AcroForm textfield ((kw ''firstName'' 130 715)
        \<lparr>width := Some 150, height := Some 20, borderStyle := Some ''inset'',
         fieldFlags := Some ''required''\<rparr>),
      DrawString 300 720 ''Last Name:'',
      AcroForm textfield ((kw ''lastName'' 380 715)
        \<lparr>width := Some 150, height := Some 20, borderStyle := Some ''inset'',
         fieldFlags := Some ''required''\<rparr>),
      DrawString 50 680 ''Email:'',
      AcroForm textfield ((kw ''emailAddress'' 130 675)
        \<lparr>width := Some 400, height := Some 20, borderStyle := Some ''inset'',
         fieldFlags := Some ''required''\<rparr>),
      DrawString 50 640 ''Age:'',
      AcroForm textfield ((kw ''age'' 130 635)
        \<lparr>width := Some 50, height := Some 20, borderStyle := Some ''inset'',
         maxlen := Some 3\<rparr>),
      DrawString 200 640 ''Country:'',
      AcroForm choice ((kw ''countrySelect'' 280 635)
        \<lparr>value := Some '''', width := Some 150, height := Some 20,
         options := Some countries\<rparr>),
      DrawString 50 600 ''Subscribe to newsletter:'',
      AcroForm checkbox ((kw ''newsletter'' 200 598)
        \<lparr>buttonStyle := Some ''check''\<rparr>),
      DrawString 50 570 ''I agree to the terms and conditions:'',
      AcroForm checkbox ((kw ''terms'' 250 568)
        \<lparr>buttonStyle := Some ''check'', fieldFlags := Some ''required''\<rparr>),
      DrawString 50 500 ''Note: Submit button would go here in a real form'',
      SetFont ''Helvetica'' 8,
      DrawString 50 50 (''Form generated on '' @ stamp),
      Save]"

definition create_mixed_form_pdf :: "env \<Rightarrow> string \<Rightarrow> world \<Rightarrow> outcome \<times> world" where
  "create_mixed_form_pdf e = generate (mixed_form_calls (now e)) e"

subsection \<open>main\<close>

text \<open>\<open>os.path.dirname\<close> and \<open>os.path.join\<close> on POSIX paths.\<close>

definition dirname :: "string \<Rightarrow> string" where
  "dirname p =
     (let head = rev (dropWhile (\<lambda>c. c \<noteq> CHR ''/'') (rev p))
      in if head \<noteq> [] \<and> \<not> list_all (\<lambda>c. c = CHR ''/'') head
         then rev (dropWhile (\<lambda>c. c = CHR ''/'') (rev head))
         else head)"

definition join2 :: "string \<Rightarrow> string \<Rightarrow> string" where
  "join2 path b =
     (if b \<noteq> [] \<and> hd b = CHR ''/'' then b
      else if path = [] \<or> last path = CHR ''/'' then path @ b
      else path @ ''/'' @ b)"

definition join :: "string \<Rightarrow> string list \<Rightarrow> string" where
  "join a ps = foldl join2 a ps"

datatype process_end = Returned | SysExit int | Uncaught string

fun exit_status :: "process_end \<Rightarrow> int" where
  "exit_status Returned = 0"
| "exit_status (SysExit n) = n"
| "exit_status (Uncaught msg) = 1"

definition print :: "string \<Rightarrow> world \<Rightarrow> outcome \<times> world" where
  "print s w = (Ok, w\<lparr>trace := trace w @ [Print s]\<rparr>)"

text \<open>Statement sequencing: an exception raised by the first statement skips the second.\<close>

definition then_do :: "(world \<Rightarrow> outcome \<times> world) \<Rightarrow> (world \<Rightarrow> outcome \<times> world)
    \<Rightarrow> world \<Rightarrow> outcome \<times> world" where
  "then_do f g w = (case f w of (Ok, w') \<Rightarrow> g w' | (Raised msg, w') \<Rightarrow> (Raised msg, w'))"

definition try_body :: "env \<Rightarrow> string \<Rightarrow> world \<Rightarrow> outcome \<times> world" where
  "try_body e output_dir =
     then_do (create_basic_form_pdf e (join output_dir [''basic-form.pdf'']))
    (then_do (create_text_fields_pdf e (join output_dir [''text-fields.pdf'']))
    (then_do (create_choice_fields_pdf e (join output_dir [''choice-fields.pdf'']))
    (then_do (create_mixed_form_pdf e (join output_dir [''mixed-form.pdf'']))
    (then_do (print (CHR 0x0A # ''All test forms have been generated in: '' @ output_dir))
    (then_do (print (CHR 0x0A # ''Generated PDFs:''))
    (then_do (print ''- basic-form.pdf: Simple form with basic field types'')
    (then_do (print ''- text-fields.pdf: Various text field configurations'')
    (then_do (print ''- choice-fields.pdf: Dropdowns, radio buttons, and checkboxes'')
             (print ''- mixed-form.pdf: Realistic form with mixed field types'')))))))))"

text \<open>
  \<open>main\<close>, given the script's own path (\<open>__file__\<close>). An exception of \<open>os.makedirs\<close> is
  outside the \<open>try\<close> and ends the process uncaught; an exception inside the \<open>try\<close> is
  printed and followed by \<open>sys.exit(1)\<close>.
\<close>

definition main :: "env \<Rightarrow> string \<Rightarrow> world \<Rightarrow> process_end \<times> world" where
  "main e file w =
     (let output_dir = join (dirname (dirname file)) [''docs'', ''test-forms'']
      in case makedirs_raises e output_dir of
           Some msg \<Rightarrow> (Uncaught msg, w\<lparr>trace := trace w @ [Makedirs output_dir]\<rparr>)
         | None \<Rightarrow>
             (case try_body e output_dir
                     (w\<lparr>trace := trace w @ [Makedirs output_dir,
                                             Print ''Generating test PDF forms...'']\<rparr>) of
                (Ok, w') \<Rightarrow> (Returned, w')
              | (Raised msg, w') \<Rightarrow>
                  (SysExit 1, w'\<lparr>trace := trace w' @ [Print (''Error generating PDFs: '' @ msg)]\<rparr>)))"

subsection \<open>Reading a generated document\<close>

definition document_at :: "world \<Rightarrow> string \<Rightarrow> canvas_call list" where
  "document_at w p = (case files w p of None \<Rightarrow> [] | Some d \<Rightarrow> d)"

fun fields_of :: "canvas_call list \<Rightarrow> field list" where
  "fields_of [] = []"
| "fields_of (AcroForm m a # ks) = (m, a) # fields_of ks"
| "fields_of (k # ks) = fields_of ks"

definition fields_named :: "string \<Rightarrow> canvas_call list \<Rightarrow> field list" where
  "fields_named n d = filter (\<lambda>f. name (snd f) = n) (fields_of d)"

fun page_size :: "canvas_call list \<Rightarrow> (int \<times> int) option" where
  "page_size [] = None"
| "page_size (Canvas sz # ks) = Some sz"
| "page_size (k # ks) = page_size ks"

definition option_list :: "field \<Rightarrow> (string \<times> string) list" where
  "option_list f = (case options (snd f) of None \<Rightarrow> [] | Some os \<Rightarrow> os)"

text \<open>An environment in which nothing raises, and a world in which nothing has happened.\<close>

definition quiet :: env where
  "quiet = \<lparr>raises = (\<lambda>w p k. None), now = ''2025-01-31 12:00:00'',
            creation_date = ''D:20250131120000'', makedirs_raises = (\<lambda>d. None)\<rparr>"

definition fresh :: world where
  "fresh = \<lparr>trace = [], files = Map.empty, stamps = Map.empty\<rparr>"

text \<open>The four generators, in the order in which \<open>main\<close> calls them.\<close>

definition generators :: "(env \<Rightarrow> string \<Rightarrow> world \<Rightarrow> outcome \<times> world) list" where
  "generators =
     [create_basic_form_pdf, create_text_fields_pdf, create_choice_fields_pdf,
      create_mixed_form_pdf]"

text \<open>The four output paths of \<open>main\<close>, in the same order.\<close>

definition output_paths :: "string \<Rightarrow> string list" where
  "output_paths file =
     (let output_dir = join (dirname (dirname file)) [''docs'', ''test-forms'']
      in [join output_dir [''basic-form.pdf''], join output_dir [''text-fields.pdf''],
          join output_dir [''choice-fields.pdf''], join output_dir [''mixed-form.pdf'']])"

subsection \<open>Properties of fields\<close>

definition kind_and_name :: "field \<Rightarrow> acroForm_method \<times> string" where
  "kind_and_name f = (fst f, name (snd f))"

definition default_value :: "field \<Rightarrow> string option" where
  "default_value f = value (snd f)"

definition is_selected :: "field \<Rightarrow> bool option" where
  "is_selected f = selected (snd f)"

definition flags :: "field \<Rightarrow> string option" where
  "flags f = fieldFlags (snd f)"

definition max_length :: "field \<Rightarrow> int option" where
  "max_length f = maxlen (snd f)"

text \<open>
  A choice field's default is admissible when the call passes a value that is empty or is
  the value component of one of the option pairs.
\<close>

definition choice_default_ok :: "field \<Rightarrow> bool" where
  "choice_default_ok f =
     (case value (snd f) of
        None \<Rightarrow> False
      | Some v \<Rightarrow> v = [] \<or> v \<in> set (map fst (option_list f)))"

definition is_choice :: "field \<Rightarrow> bool" where
  "is_choice f = (fst f = choice)"

text \<open>
  The defaults of the widget methods for the sizes a call does not pass. They belong to
  the PDF library, so they are a parameter here; the library's own values are width 120,
  height 36 and size 20.
\<close>

record acroForm_defaults =
  default_width :: int
  default_height :: int
  default_size :: int

text \<open>
  The bounding box of a widget, as lower-left and upper-right corner: text and choice
  fields are boxes of a width and a height, checkboxes and radio buttons are squares of
  one size, which no call of the script passes.
\<close>

definition bbox :: "acroForm_defaults \<Rightarrow> field \<Rightarrow> int \<times> int \<times> int \<times> int" where
  "bbox d f =
     (let a = snd f in
      if fst f = textfield \<or> fst f = choice
      then (x a, y a,
            x a + (case width a of None \<Rightarrow> default_width d | Some v \<Rightarrow> v),
            y a + (case height a of None \<Rightarrow> default_height d | Some v \<Rightarrow> v))
      else (x a, y a, x a + default_size d, y a + default_size d))"

definition within_page :: "int \<times> int \<Rightarrow> int \<times> int \<times> int \<times> int \<Rightarrow> bool" where
  "within_page pg b =
     (case pg of (pw, ph) \<Rightarrow>
        (case b of (x0, y0, x1, y1) \<Rightarrow>
           0 \<le> x0 \<and> 0 \<le> y0 \<and> x0 \<le> x1 \<and> y0 \<le> y1 \<and> x1 \<le> pw \<and> y1 \<le> ph))"

subsection \<open>Properties of traces\<close>

text \<open>
  \<open>only_on ps ev\<close>: the event is not an exception, and if it is a library call, the call is
  on the canvas of one of the paths \<open>ps\<close>.
\<close>

fun only_on :: "string list \<Rightarrow> event \<Rightarrow> bool" where
  "only_on ps (Called q k) = (q \<in> set ps)"
| "only_on ps (Raise q msg) = False"
| "only_on ps (Makedirs d) = True"
| "only_on ps (Print s) = True"

text \<open>An environment in which saving the second document fails.\<close>

definition save_fails :: env where
  "save_fails =
     \<lparr>raises = (\<lambda>w p k. if k = Save \<and> p = ''/repo/docs/test-forms/text-fields.pdf''
                          then Some ''Permission denied'' else None),
      now = ''2025-01-31 12:00:00'',
      creation_date = ''D:20250131120000'',
      makedirs_raises = (\<lambda>d. None)\<rparr>"

text \<open>The document a generator saves at a path in the quiet environment.\<close>

definition sample_document ::
    "(env \<Rightarrow> string \<Rightarrow> world \<Rightarrow> outcome \<times> world) \<Rightarrow> string \<Rightarrow> canvas_call list" where
  "sample_document g p = document_at (snd (g quiet p fresh)) p"


text \<open>The defaults of the PDF library the script is written for.\<close>

definition reportlab_defaults :: acroForm_defaults where
  "reportlab_defaults = \<lparr>default_width = 120, default_height = 36, default_size = 20\<rparr>"

text \<open>
  Two relations between the worlds before and after a piece of the program: it ran
  without an exception, or it ended in the exception \<open>m\<close> raised by a call on the canvas
  of \<open>p\<close>; in both cases every call it made before was on a canvas of one of \<open>ps\<close>.
\<close>

definition quietly :: "string list \<Rightarrow> world \<Rightarrow> world \<Rightarrow> bool" where
  "quietly ps w w' = (\<exists>t. trace w' = trace w @ t \<and> list_all (only_on ps) t)"

definition raising :: "string list \<Rightarrow> string \<Rightarrow> string \<Rightarrow> world \<Rightarrow> world \<Rightarrow> bool" where
  "raising ps p m w w' =
     (\<exists>t. trace w' = trace w @ t @ [Raise p m] \<and> list_all (only_on ps) t)"

subsection \<open>The calls a run makes\<close>

text \<open>
  The library calls on the canvas of \<open>p\<close> among some events, and the calls that are made
  on it between two worlds. A call that raises has been made.
\<close>

fun calls_on :: "string \<Rightarrow> event list \<Rightarrow> canvas_call list" where
  "calls_on p [] = []"
| "calls_on p (Called q k # evs) = (if q = p then k # calls_on p evs else calls_on p evs)"
| "calls_on p (ev # evs) = calls_on p evs"

definition made :: "string \<Rightarrow> world \<Rightarrow> world \<Rightarrow> canvas_call list" where
  "made p w w' = calls_on p (drop (length (trace w)) (trace w'))"

text \<open>The calls of a generator that come before the widget call for the field \<open>n\<close>.\<close>

fun is_widget :: "string \<Rightarrow> canvas_call \<Rightarrow> bool" where
  "is_widget n (AcroForm m a) = (name a = n)"
| "is_widget n k = False"

definition calls_before :: "string \<Rightarrow> canvas_call list \<Rightarrow> canvas_call list" where
  "calls_before n ks = takeWhile (\<lambda>k. \<not> is_widget n k) ks"

text \<open>A choice call with the empty value.\<close>

fun empty_choice :: "canvas_call \<Rightarrow> bool" where
  "empty_choice (AcroForm m a) = (m = choice \<and> value a = Some [])"
| "empty_choice k = False"


text \<open>
  An environment in which the library rejects a choice field that is created with the
  empty value, which is what the PDF library the script is written for does, and in
  which nothing else raises.
\<close>

definition rejects_empty_choice :: env where
  "rejects_empty_choice =
     \<lparr>raises = (\<lambda>w p k. if empty_choice k then Some ''ValueError'' else None),
      now = ''2025-01-31 12:00:00'',
      creation_date = ''D:20250131120000'',
      makedirs_raises = (\<lambda>d. None)\<rparr>"


section \<open>Running a generator\<close>

subsection \<open>The shape of a run\<close>

lemma calls_on_append: "calls_on p (evs @ evs') = calls_on p evs @ calls_on p evs'"
  by (induction p evs rule: calls_on.induct) auto

lemma calls_on_Called: "calls_on p (map (Called p) ks) = ks"
  by (induction ks) auto

lemma fields_of_append: "fields_of (ks @ ks') = fields_of ks @ fields_of ks'"
  by (induction ks rule: fields_of.induct) auto

lemma run_calls_shape:
  assumes "run_calls e p doc ks w = (r, w')"
  shows "\<exists>ms rest. ks = ms @ rest
      \<and> trace w' = trace w @ map (Called p) ms @ (case r of Ok \<Rightarrow> [] | Raised m \<Rightarrow> [Raise p m])
      \<and> (r = Ok \<longrightarrow> rest = [])
      \<and> (\<forall>m. r = Raised m \<longrightarrow> ms \<noteq> [] \<and> (\<exists>w0. raises e w0 p (last ms) = Some m))
      \<and> (\<forall>k \<in> set (if r = Ok then ms else butlast ms). \<exists>w0. raises e w0 p k = None)
      \<and> (Save \<notin> set (if r = Ok then ms else butlast ms)
            \<longrightarrow> files w' = files w \<and> stamps w' = stamps w)"
  using assms
proof (induction ks arbitrary: doc w)
  case Nil
  then show ?case by auto
next
  case (Cons k ks)
  show ?case
  proof (cases "raises e w p k")
    case (Some msg)
    with Cons.prems have r: "r = Raised msg"
      and w': "w' = w\<lparr>trace := trace w @ [Called p k, Raise p msg]\<rparr>"
      by auto
    show ?thesis
      by (rule exI [of _ "[k]"], rule exI [of _ ks]) (use r w' Some in auto)
  next
    case None
    define w2 where "w2 = w\<lparr>trace := trace w @ [Called p k],
               files := (if k = Save then (files w)(p \<mapsto> doc) else files w),
               stamps := (if k = Save then (stamps w)(p \<mapsto> creation_date e)
                          else stamps w)\<rparr>"
    from None Cons.prems have run: "run_calls e p (doc @ [k]) ks w2 = (r, w')"
      by (simp add: w2_def)
    from Cons.IH [OF run] obtain ms rest where ih:
      "ks = ms @ rest"
      "trace w' = trace w2 @ map (Called p) ms @ (case r of Ok \<Rightarrow> [] | Raised m \<Rightarrow> [Raise p m])"
      "r = Ok \<longrightarrow> rest = []"
      "\<forall>m. r = Raised m \<longrightarrow> ms \<noteq> [] \<and> (\<exists>w0. raises e w0 p (last ms) = Some m)"
      "\<forall>k \<in> set (if r = Ok then ms else butlast ms). \<exists>w0. raises e w0 p k = None"
      "Save \<notin> set (if r = Ok then ms else butlast ms)
         \<longrightarrow> files w' = files w2 \<and> stamps w' = stamps w2"
      by blast
    have tr: "trace w2 = trace w @ [Called p k]"
      and fs: "k \<noteq> Save \<Longrightarrow> files w2 = files w \<and> stamps w2 = stamps w"
      by (simp_all add: w2_def)
    show ?thesis
    proof (cases r)
      case Ok
      with ih tr fs None show ?thesis
        by (intro exI [of _ "k # ms"] exI [of _ rest]) auto
    next
      case (Raised m)
      with ih have ne: "ms \<noteq> []" by simp
      with Raised ih tr fs None show ?thesis
        by (intro exI [of _ "k # ms"] exI [of _ rest]) auto
    qed
  qed
qed


lemma generate_shape:
  assumes "generate calls e p w = (r, w')"
  obtains ms rest where "calls = ms @ rest" and "made p w w' = ms"
    and "r = Ok \<Longrightarrow> rest = []" and "r \<noteq> Ok \<Longrightarrow> ms \<noteq> []"
    and "\<And>m. r = Raised m \<Longrightarrow> \<exists>w0. raises e w0 p (last ms) = Some m"
    and "\<And>k. k \<in> set (if r = Ok then ms else butlast ms) \<Longrightarrow> \<exists>w0. raises e w0 p k = None"
    and "Save \<notin> set (if r = Ok then ms else butlast ms)
           \<Longrightarrow> files w' = files w \<and> stamps w' = stamps w"
proof -
  obtain r1 w1 where run: "run_calls e p [] calls w = (r1, w1)"
    by (cases "run_calls e p [] calls w")
  from run_calls_shape [OF run] obtain ms rest where sh:
    "calls = ms @ rest"
    "trace w1 = trace w @ map (Called p) ms @ (case r1 of Ok \<Rightarrow> [] | Raised m \<Rightarrow> [Raise p m])"
    "r1 = Ok \<longrightarrow> rest = []"
    "\<forall>m. r1 = Raised m \<longrightarrow> ms \<noteq> [] \<and> (\<exists>w0. raises e w0 p (last ms) = Some m)"
    "\<forall>k \<in> set (if r1 = Ok then ms else butlast ms). \<exists>w0. raises e w0 p k = None"
    "Save \<notin> set (if r1 = Ok then ms else butlast ms)
       \<longrightarrow> files w1 = files w \<and> stamps w1 = stamps w"
    by blast
  from run assms have r: "r = r1"
    and fs: "files w' = files w1" "stamps w' = stamps w1"
    and tr: "trace w' = trace w1 @ (case r1 of Ok \<Rightarrow> [Print (''Created: '' @ p)] | Raised m \<Rightarrow> [])"
    by (auto simp: generate_def split: outcome.splits)
  from tr sh(2) have "made p w w' = ms"
    by (cases r1) (simp_all add: made_def calls_on_append calls_on_Called)
  moreover have "r \<noteq> Ok \<Longrightarrow> ms \<noteq> []"
    using sh(4) r by (cases r1) auto
  ultimately show thesis
    using sh r fs by (intro that [of ms rest]) auto
qed

lemma generate_total:
  assumes "\<And>w0 k. k \<in> set calls \<Longrightarrow> raises e w0 p k = None"
  shows "fst (generate calls e p w) = Ok"
proof (rule ccontr)
  assume no: "fst (generate calls e p w) \<noteq> Ok"
  obtain r w' where g: "generate calls e p w = (r, w')"
    by (cases "generate calls e p w")
  with no obtain m where m: "r = Raised m"
    by (cases r) auto
  from g show False
  proof (rule generate_shape)
    fix ms rest
    assume "calls = ms @ rest" and "r \<noteq> Ok \<Longrightarrow> ms \<noteq> []"
      and "\<And>m. r = Raised m \<Longrightarrow> \<exists>w0. raises e w0 p (last ms) = Some m"
    with m assms [of "last ms"] show False
      by auto
  qed
qed

text \<open>The calls a run makes are an initial segment of the generator's calls, never empty.\<close>

lemma generate_made:
  assumes "calls \<noteq> []"
  shows "\<exists>n. 0 < n \<and> n \<le> length calls
           \<and> made p w (snd (generate calls e p w)) = take n calls
           \<and> (fst (generate calls e p w) = Ok \<longrightarrow> n = length calls)"
proof -
  obtain r w' where g: "generate calls e p w = (r, w')"
    by (cases "generate calls e p w")
  from g show ?thesis
  proof (rule generate_shape)
    fix ms rest
    assume c: "calls = ms @ rest" and m: "made p w w' = ms"
      and ok: "r = Ok \<Longrightarrow> rest = []" and ne: "r \<noteq> Ok \<Longrightarrow> ms \<noteq> []"
    have "ms \<noteq> []"
      using assms c ok ne by (cases "r = Ok") auto
    with c m ok g show ?thesis
      by (intro exI [of _ "length ms"]) auto
  qed
qed

text \<open>If the first \<open>j\<close> calls do not raise, the call after them is made.\<close>

lemma generate_progress:
  assumes "j < length calls"
    and "\<And>w0 k. k \<in> set (take j calls) \<Longrightarrow> raises e w0 p k = None"
  shows "j < length (made p w (snd (generate calls e p w)))"
proof -
  obtain r w' where g: "generate calls e p w = (r, w')"
    by (cases "generate calls e p w")
  from g show ?thesis
  proof (rule generate_shape)
    fix ms rest
    assume c: "calls = ms @ rest" and m: "made p w w' = ms"
      and ok: "r = Ok \<Longrightarrow> rest = []" and ne: "r \<noteq> Ok \<Longrightarrow> ms \<noteq> []"
      and la: "\<And>m. r = Raised m \<Longrightarrow> \<exists>w0. raises e w0 p (last ms) = Some m"
    show ?thesis
    proof (cases r)
      case Ok
      with ok c assms(1) m g show ?thesis by simp
    next
      case (Raised msg)
      show ?thesis
      proof (rule ccontr)
        assume "\<not> j < length (made p w (snd (generate calls e p w)))"
        with g m have le: "length ms \<le> j" by simp
        from Raised ne have "ms \<noteq> []" by simp
        then have "last ms \<in> set ms" by simp
        moreover from c le have "set ms \<subseteq> set (take j calls)"
          by (auto simp: take_append)
        ultimately have "last ms \<in> set (take j calls)" by blast
        with assms(2) la [OF Raised] show False by auto
      qed
    qed
  qed
qed

text \<open>If the call at position \<open>j\<close> always raises, the run raises and makes no call after it.\<close>

lemma generate_blocked:
  assumes "j < length calls" and "\<And>w0. raises e w0 p (calls ! j) \<noteq> None"
  shows "fst (generate calls e p w) \<noteq> Ok"
    and "length (made p w (snd (generate calls e p w))) \<le> Suc j"
proof -
  obtain r w' where g: "generate calls e p w = (r, w')"
    by (cases "generate calls e p w")
  have "r \<noteq> Ok \<and> length (made p w w') \<le> Suc j"
    using g
  proof (rule generate_shape)
    fix ms rest
    assume c: "calls = ms @ rest" and m: "made p w w' = ms"
      and ok: "r = Ok \<Longrightarrow> rest = []"
      and fine: "\<And>k. k \<in> set (if r = Ok then ms else butlast ms) \<Longrightarrow> \<exists>w0. raises e w0 p k = None"
    have no: "r \<noteq> Ok"
    proof
      assume "r = Ok"
      with ok c assms(1) have "calls ! j \<in> set (if r = Ok then ms else butlast ms)"
        by simp
      from fine [OF this] assms(2) show False by auto
    qed
    have "length ms \<le> Suc j"
    proof (rule ccontr)
      assume "\<not> length ms \<le> Suc j"
      then have j: "j < length (butlast ms)" by simp
      then have "j < length ms" by simp
      with j have "butlast ms ! j = calls ! j"
        using c by (simp add: nth_butlast nth_append)
      with j have "calls ! j \<in> set (butlast ms)"
        by (metis nth_mem)
      with no fine [of "calls ! j"] assms(2) show False by auto
    qed
    with no m show ?thesis by simp
  qed
  with g show "fst (generate calls e p w) \<noteq> Ok"
    and "length (made p w (snd (generate calls e p w))) \<le> Suc j"
    by simp_all
qed

text \<open>A run that raises saves nothing, since \<open>Save\<close> is the last call.\<close>

lemma generate_unsaved:
  assumes "fst (generate calls e p w) \<noteq> Ok" and "Save \<notin> set (butlast calls)"
  shows "files (snd (generate calls e p w)) = files w"
    and "stamps (snd (generate calls e p w)) = stamps w"
proof -
  obtain r w' where g: "generate calls e p w = (r, w')"
    by (cases "generate calls e p w")
  with assms(1) have no: "r \<noteq> Ok" by simp
  have "files w' = files w \<and> stamps w' = stamps w"
    using g
  proof (rule generate_shape)
    fix ms rest
    assume c: "calls = ms @ rest" and ne: "r \<noteq> Ok \<Longrightarrow> ms \<noteq> []"
      and un: "Save \<notin> set (if r = Ok then ms else butlast ms)
           \<Longrightarrow> files w' = files w \<and> stamps w' = stamps w"
    from c ne [OF no] have "set (butlast ms) \<subseteq> set (butlast calls)"
      by (cases "rest = []") (auto simp: butlast_append dest: in_set_butlastD)
    with assms(2) no un show ?thesis by auto
  qed
  with g show "files (snd (generate calls e p w)) = files w"
    and "stamps (snd (generate calls e p w)) = stamps w"
    by simp_all
qed

subsection \<open>The file a returning run saves\<close>

lemma run_calls_append:
  "run_calls e p doc (ks1 @ ks2) w =
     (case run_calls e p doc ks1 w of
        (Ok, w1) \<Rightarrow> run_calls e p (doc @ ks1) ks2 w1
      | (Raised m, w1) \<Rightarrow> (Raised m, w1))"
proof (induction ks1 arbitrary: doc w)
  case Nil
  show ?case by simp
next
  case (Cons k ks1)
  show ?case
  proof (cases "raises e w p k")
    case None
    then show ?thesis
      using Cons.IH [of "doc @ [k]"] by (simp split: prod.split outcome.split)
  next
    case (Some msg)
    then show ?thesis by simp
  qed
qed

lemma run_calls_no_save:
  "Save \<notin> set ks \<Longrightarrow> run_calls e p doc ks w = (Ok, w')
     \<Longrightarrow> files w' = files w \<and> stamps w' = stamps w"
  by (induction ks arbitrary: doc w) (auto split: option.splits)

lemma run_calls_saved:
  assumes "Save \<notin> set ks" and "run_calls e p doc (ks @ [Save]) w = (Ok, w')"
  shows "files w' = (files w)(p \<mapsto> doc @ ks)"
    and "stamps w' = (stamps w)(p \<mapsto> creation_date e)"
proof -
  obtain r w1 where r: "run_calls e p doc ks w = (r, w1)"
    by (cases "run_calls e p doc ks w")
  from assms(2) have "(case run_calls e p doc ks w of
        (Ok, w1) \<Rightarrow> run_calls e p (doc @ ks) [Save] w1
      | (Raised m, w1) \<Rightarrow> (Raised m, w1)) = (Ok, w')"
    by (simp only: run_calls_append)
  with r have ok: "r = Ok" and last: "run_calls e p (doc @ ks) [Save] w1 = (Ok, w')"
    by (cases r; simp)+
  from run_calls_no_save [OF assms(1)] r ok have "files w1 = files w" "stamps w1 = stamps w"
    by simp_all
  with last show "files w' = (files w)(p \<mapsto> doc @ ks)"
    and "stamps w' = (stamps w)(p \<mapsto> creation_date e)"
    by (cases "raises e w1 p Save"; auto)+
qed

text \<open>A generator that returns has saved, at its path, the calls that precede \<open>Save\<close>.\<close>

lemma generate_saved:
  assumes "generate (ks @ [Save]) e p w = (Ok, w')" and "Save \<notin> set ks"
  shows "document_at w' p = ks"
proof -
  obtain r w1 where r: "run_calls e p [] (ks @ [Save]) w = (r, w1)"
    by (cases "run_calls e p [] (ks @ [Save]) w")
  with assms(1) have "r = Ok" and "files w' = files w1"
    by (auto simp: generate_def split: outcome.splits)
  with run_calls_saved(1) [OF assms(2), of e p "[]" w w1] r show ?thesis
    by (simp add: document_at_def)
qed


lemma generate_document:
  assumes "generate calls e p w = (Ok, w')"
    and "calls = butlast calls @ [Save]" and "Save \<notin> set (butlast calls)"
  shows "document_at w' p = butlast calls"
  using generate_saved [of "butlast calls" e p w w'] assms by simp

lemma basic_form_document:
  assumes "create_basic_form_pdf e p w = (Ok, w')"
  shows "document_at w' p = butlast basic_form_calls"
proof (rule generate_document)
  show "generate basic_form_calls e p w = (Ok, w')"
    using assms by (simp add: create_basic_form_pdf_def)
  show "basic_form_calls = butlast basic_form_calls @ [Save]"
    by (simp add: basic_form_calls_def)
  show "Save \<notin> set (butlast basic_form_calls)"
    by (simp add: basic_form_calls_def)
qed

lemma text_fields_document:
  assumes "create_text_fields_pdf e p w = (Ok, w')"
  shows "document_at w' p = butlast text_fields_calls"
proof (rule generate_document)
  show "generate text_fields_calls e p w = (Ok, w')"
    using assms by (simp add: create_text_fields_pdf_def)
  show "text_fields_calls = butlast text_fields_calls @ [Save]"
    by (simp add: text_fields_calls_def)
  show "Save \<notin> set (butlast text_fields_calls)"
    by (simp add: text_fields_calls_def)
qed

lemmas choice_unfold =
  choice_fields_calls_def size_calls_def sizes_def feature_calls_def features_def

text \<open>In the quiet environment the basic-form generator returns.\<close>

lemma quiet_basic_ok: "fst (create_basic_form_pdf quiet ''basic-form.pdf'' fresh) = Ok"
  by (simp add: create_basic_form_pdf_def generate_def basic_form_calls_def quiet_def fresh_def)

lemma run_ok: "fst r = Ok \<Longrightarrow> r = (Ok, snd r)"
  by (simp add: prod_eq_iff)

section \<open>The widgets a run emits\<close>

lemma fields_of_take_subset: "set (fields_of (take n ks)) \<subseteq> set (fields_of ks)"
proof -
  have "fields_of ks = fields_of (take n ks) @ fields_of (drop n ks)"
    by (metis append_take_drop_id fields_of_append)
  then show ?thesis by auto
qed

lemma filter_fields_take_empty:
  "filter P (fields_of ks) = [] \<Longrightarrow> filter P (fields_of (take n ks)) = []"
  using fields_of_take_subset [of n ks] by (auto simp: filter_empty_conv)

lemma filter_fields_take:
  assumes "m \<le> n" and "filter P (fields_of (drop m ks)) = []"
  shows "filter P (fields_of (take n ks)) = filter P (fields_of (take m ks))"
proof -
  from assms(1) have "take n ks = take m ks @ take (n - m) (drop m ks)"
    using take_add [of m "n - m" ks] by simp
  with filter_fields_take_empty [OF assms(2), of "n - m"] show ?thesis
    by (simp add: fields_of_append)
qed

lemma list_all_fields_take:
  "list_all P (fields_of ks) \<Longrightarrow> list_all P (fields_of (take n ks))"
  using fields_of_take_subset [of n ks] by (auto simp: list_all_iff)



text \<open>Every widget a run emits is one of the generator's widgets.\<close>

lemma made_fields_all:
  assumes "calls \<noteq> []" and "list_all P (fields_of calls)"
  shows "list_all P (fields_of (made p w (snd (generate calls e p w))))"
proof -
  from generate_made [OF assms(1), of p w e] obtain n where
    "made p w (snd (generate calls e p w)) = take n calls"
    by blast
  with list_all_fields_take [OF assms(2)] show ?thesis by simp
qed

lemma made_fields_subset:
  assumes "calls \<noteq> []"
  shows "set (fields_of (made p w (snd (generate calls e p w)))) \<subseteq> set (fields_of calls)"
proof -
  from generate_made [OF assms(1), of p w e] obtain n where
    "made p w (snd (generate calls e p w)) = take n calls"
    by blast
  with fields_of_take_subset [of n calls] show ?thesis by simp
qed

text \<open>
  If the calls before position \<open>j\<close> do not raise, the run emits every widget up to
  position \<open>j\<close>; if the call at position \<open>j\<close> always raises, it emits no widget after it.
\<close>

lemma made_upto:
  assumes "j < length calls"
    and "\<And>w0 k. k \<in> set (take j calls) \<Longrightarrow> raises e w0 p k = None"
    and "filter P (fields_of (drop (Suc j) calls)) = []"
  shows "filter P (fields_of (made p w (snd (generate calls e p w))))
       = filter P (fields_of (take (Suc j) calls))"
proof -
  from assms(1) have "calls \<noteq> []" by auto
  from generate_made [OF this, of p w e] obtain n where
    n: "made p w (snd (generate calls e p w)) = take n calls" "n \<le> length calls"
    by blast
  from generate_progress [OF assms(1,2), of w] n have "Suc j \<le> n"
    by simp
  from filter_fields_take [OF this assms(3)] n(1) show ?thesis
    by simp
qed

lemma made_blocked:
  assumes "j < length calls" and "\<And>w0. raises e w0 p (calls ! j) \<noteq> None"
    and "filter P (fields_of (take (Suc j) calls)) = []"
  shows "filter P (fields_of (made p w (snd (generate calls e p w)))) = []"
proof -
  from assms(1) have "calls \<noteq> []" by auto
  from generate_made [OF this, of p w e] obtain n where
    n: "made p w (snd (generate calls e p w)) = take n calls" "n \<le> length calls"
    by blast
  from generate_blocked(2) [OF assms(1,2), of w] n have "n \<le> Suc j"
    by simp
  then have "take n calls = take n (take (Suc j) calls)"
    by (simp add: min_def)
  with filter_fields_take_empty [OF assms(3), of n] n(1) show ?thesis
    by simp
qed

lemma made_page:
  "page_size (made p w (snd (generate (Canvas sz # calls) e p w))) = Some sz"
proof -
  from generate_made [of "Canvas sz # calls" p w e] obtain n where
    "0 < n" "made p w (snd (generate (Canvas sz # calls) e p w)) = take n (Canvas sz # calls)"
    by blast
  then show ?thesis by (cases n) simp_all
qed

section \<open>The choice-fields generator\<close>

lemma state_position:
  "calls_before ''state'' choice_fields_calls = take 7 choice_fields_calls"
  "7 < length choice_fields_calls"
  "empty_choice (choice_fields_calls ! 7)"
  "Save \<notin> set (butlast choice_fields_calls)"
  by (simp_all add: calls_before_def choice_unfold kw_def)

lemma state_call:
  "fields_named ''state'' (take 8 choice_fields_calls) =
     [(choice, (kw ''state'' 200 645)
        \<lparr>tooltip := Some ''Select your state'', value := Some '''',
         width := Some 200, height := Some 20, options := Some states\<rparr>)]"
  "filter (\<lambda>f. name (snd f) = ''state'') (fields_of (drop 8 choice_fields_calls)) = []"
  "filter (\<lambda>f. name (snd f) = ''size'') (fields_of (take 8 choice_fields_calls)) = []"
  by (simp_all add: choice_unfold fields_named_def kw_def)

text \<open>
  C1 (as amended). The choice-fields generator creates the choice field named \<open>state\<close>
  with exactly 13 option pairs: the blank entry (empty value) first, then the twelve
  states from Alabama to Idaho. Whenever the calls before it do not raise, this call is
  made, and it is the only widget named \<open>state\<close> that the run emits.
\<close>

theorem state_dropdown_options:
  assumes "\<And>w0 k. k \<in> set (calls_before ''state'' choice_fields_calls)
             \<Longrightarrow> raises e w0 p k = None"
  shows "map kind_and_name
           (fields_named ''state'' (made p w (snd (create_choice_fields_pdf e p w))))
         = [(choice, ''state'')]
       \<and> map option_list
           (fields_named ''state'' (made p w (snd (create_choice_fields_pdf e p w))))
         = [ [('''', ''-- Select State --''),
              (''AL'', ''Alabama''), (''AK'', ''Alaska''), (''AZ'', ''Arizona''),
              (''AR'', ''Arkansas''), (''CA'', ''California''), (''CO'', ''Colorado''),
              (''CT'', ''Connecticut''), (''DE'', ''Delaware''), (''FL'', ''Florida''),
              (''GA'', ''Georgia''), (''HI'', ''Hawaii''), (''ID'', ''Idaho'')] ]
       \<and> map (length \<circ> option_list)
           (fields_named ''state'' (made p w (snd (create_choice_fields_pdf e p w))))
         = [13]"
proof -
  have "fields_named ''state'' (made p w (snd (generate choice_fields_calls e p w)))
      = fields_named ''state'' (take (Suc 7) choice_fields_calls)"
    unfolding fields_named_def
    using assms by (intro made_upto) (simp_all add: state_position state_call)
  then show ?thesis
    by (simp add: create_choice_fields_pdf_def state_call option_list_def states_def
          kind_and_name_def kw_def)
qed

lemma rejects_choice_run:
  "fst (create_choice_fields_pdf rejects_empty_choice ''choice-fields.pdf'' fresh)
     = Raised ''ValueError''"
  "files (snd (create_choice_fields_pdf rejects_empty_choice ''choice-fields.pdf'' fresh))
     ''choice-fields.pdf'' = None"
  by (simp_all add: create_choice_fields_pdf_def generate_def choice_unfold
        rejects_empty_choice_def fresh_def kw_def)

theorem state_dropdown_options_witness:
  "fst (create_choice_fields_pdf rejects_empty_choice ''choice-fields.pdf'' fresh)
     = Raised ''ValueError''
   \<and> map (length \<circ> option_list)
        (fields_named ''state'' (made ''choice-fields.pdf'' fresh
           (snd (create_choice_fields_pdf rejects_empty_choice ''choice-fields.pdf'' fresh))))
      = [13]"
proof -
  have "\<And>w0 k. k \<in> set (calls_before ''state'' choice_fields_calls)
          \<Longrightarrow> raises rejects_empty_choice w0 ''choice-fields.pdf'' k = None"
    unfolding state_position(1)
    by (auto simp: choice_unfold rejects_empty_choice_def kw_def)
  from state_dropdown_options [OF this, of fresh] rejects_choice_run(1) show ?thesis
    by simp
qed

text \<open>
  C1 as the specification states it fails in a run in which the library rejects the
  empty value of the \<open>state\<close> dropdown: no document is saved at the path, and the \<open>state\<close>
  field that the run emits does not have exactly 12 options.
\<close>

theorem state_dropdown_twelve_counterexample:
  "files (snd (create_choice_fields_pdf rejects_empty_choice ''choice-fields.pdf'' fresh))
     ''choice-fields.pdf'' = None
   \<and> \<not> (map (length \<circ> option_list)
          (fields_named ''state'' (made ''choice-fields.pdf'' fresh
             (snd (create_choice_fields_pdf rejects_empty_choice ''choice-fields.pdf'' fresh))))
         = [12]
        \<and> map (take 1 \<circ> map fst \<circ> option_list)
          (fields_named ''state'' (made ''choice-fields.pdf'' fresh
             (snd (create_choice_fields_pdf rejects_empty_choice ''choice-fields.pdf'' fresh))))
         = [ [''''] ])"
proof -
  have "made ''choice-fields.pdf'' fresh
          (snd (create_choice_fields_pdf rejects_empty_choice ''choice-fields.pdf'' fresh))
      = take 8 choice_fields_calls"
    by (simp add: made_def create_choice_fields_pdf_def generate_def choice_unfold
          rejects_empty_choice_def fresh_def kw_def)
  with rejects_choice_run(2) show ?thesis
    by (simp add: state_call option_list_def states_def kw_def)
qed

text \<open>
  C2 fails on the code. In every environment in which the library rejects a choice
  field that is created with the empty value, the choice-fields generator raises at the
  \<open>state\<close> dropdown, which comes before the loop over the sizes: the run does not return,
  it emits no widget named \<open>size\<close>, and it saves no file.
\<close>

theorem size_radios_never_emitted:
  assumes "\<And>w0 k. empty_choice k \<Longrightarrow> raises e w0 p k \<noteq> None"
  shows "fst (create_choice_fields_pdf e p w) \<noteq> Ok
       \<and> fields_named ''size'' (made p w (snd (create_choice_fields_pdf e p w))) = []
       \<and> files (snd (create_choice_fields_pdf e p w)) = files w"
proof -
  have blocked: "\<And>w0. raises e w0 p (choice_fields_calls ! 7) \<noteq> None"
    using assms state_position(3) by blast
  have no: "fst (generate choice_fields_calls e p w) \<noteq> Ok"
    using state_position(2) blocked by (rule generate_blocked(1))
  have "fields_named ''size'' (made p w (snd (generate choice_fields_calls e p w))) = []"
    unfolding fields_named_def
    using state_position(2) blocked by (rule made_blocked) (simp add: state_call)
  with no generate_unsaved(1) [OF no state_position(4)] show ?thesis
    by (simp add: create_choice_fields_pdf_def)
qed

theorem size_radios_never_emitted_witness:
  "fst (create_choice_fields_pdf rejects_empty_choice ''choice-fields.pdf'' fresh) \<noteq> Ok
   \<and> fields_named ''size'' (made ''choice-fields.pdf'' fresh
        (snd (create_choice_fields_pdf rejects_empty_choice ''choice-fields.pdf'' fresh))) = []"
proof -
  have "\<And>w0 k. empty_choice k
          \<Longrightarrow> raises rejects_empty_choice w0 ''choice-fields.pdf'' k \<noteq> None"
    by (simp add: rejects_empty_choice_def)
  from size_radios_never_emitted [OF this, of fresh] show ?thesis
    by simp
qed

section \<open>The mixed-form generator\<close>

lemma country_position:
  "14 < length (mixed_form_calls s)"
  "empty_choice (mixed_form_calls s ! 14)"
  "Save \<notin> set (butlast (mixed_form_calls s))"
  "filter (\<lambda>f. name (snd f) = ''terms'') (fields_of (take 15 (mixed_form_calls s))) = []"
  by (simp_all add: mixed_form_calls_def kw_def)

text \<open>
  C4 fails on the code. In every environment in which the library rejects a choice
  field that is created with the empty value, the mixed-form generator raises at the
  \<open>countrySelect\<close> dropdown, which comes before the two checkboxes: the run does not
  return, it emits no widget named \<open>terms\<close>, and it saves no file.
\<close>

theorem terms_never_emitted:
  assumes "\<And>w0 k. empty_choice k \<Longrightarrow> raises e w0 p k \<noteq> None"
  shows "fst (create_mixed_form_pdf e p w) \<noteq> Ok
       \<and> fields_named ''terms'' (made p w (snd (create_mixed_form_pdf e p w))) = []
       \<and> files (snd (create_mixed_form_pdf e p w)) = files w"
proof -
  let ?calls = "mixed_form_calls (now e)"
  have blocked: "\<And>w0. raises e w0 p (?calls ! 14) \<noteq> None"
    using assms country_position(2) by blast
  have no: "fst (generate ?calls e p w) \<noteq> Ok"
    using country_position(1) blocked by (rule generate_blocked(1))
  have "fields_named ''terms'' (made p w (snd (generate ?calls e p w))) = []"
    unfolding fields_named_def
    using country_position(1) blocked by (rule made_blocked) (simp add: country_position)
  with no generate_unsaved(1) [OF no country_position(3)] show ?thesis
    by (simp add: create_mixed_form_pdf_def)
qed

lemma rejects_mixed_run:
  "made ''mixed-form.pdf'' fresh
     (snd (create_mixed_form_pdf rejects_empty_choice ''mixed-form.pdf'' fresh))
   = take 15 (mixed_form_calls (now rejects_empty_choice))"
  by (simp add: made_def create_mixed_form_pdf_def generate_def mixed_form_calls_def
        rejects_empty_choice_def fresh_def kw_def)

theorem terms_never_emitted_witness:
  "fst (create_mixed_form_pdf rejects_empty_choice ''mixed-form.pdf'' fresh) \<noteq> Ok
   \<and> fields_named ''terms'' (made ''mixed-form.pdf'' fresh
        (snd (create_mixed_form_pdf rejects_empty_choice ''mixed-form.pdf'' fresh))) = []
   \<and> map kind_and_name (fields_of (made ''mixed-form.pdf'' fresh
        (snd (create_mixed_form_pdf rejects_empty_choice ''mixed-form.pdf'' fresh))))
      = [(textfield, ''firstName''), (textfield, ''lastName''), (textfield, ''emailAddress''),
         (textfield, ''age''), (choice, ''countrySelect'')]"
proof -
  have "\<And>w0 k. empty_choice k
          \<Longrightarrow> raises rejects_empty_choice w0 ''mixed-form.pdf'' k \<noteq> None"
    by (simp add: rejects_empty_choice_def)
  from terms_never_emitted [OF this, of fresh] show ?thesis
    by (simp add: rejects_mixed_run) (simp add: mixed_form_calls_def kind_and_name_def kw_def)
qed

section \<open>The text-fields generator\<close>

text \<open>
  C3. If none of its calls raises, the text-fields generator returns; and in the document
  that it saves when it returns, the text field \<open>maxLengthField\<close> has maximum length 10,
  \<open>readOnly\<close> has the value "This cannot be changed" and the flag \<open>readOnly\<close>, \<open>password\<close>
  has the flag \<open>password\<close> and \<open>comments\<close> has the flag \<open>multiline\<close>.
\<close>

theorem text_field_flags:
  "((\<forall>w0. \<forall>k \<in> set text_fields_calls. raises e w0 p k = None)
      \<longrightarrow> fst (create_text_fields_pdf e p w) = Ok)
   \<and> (create_text_fields_pdf e p w = (Ok, w') \<longrightarrow>
       map kind_and_name (fields_named ''maxLengthField'' (document_at w' p)) =
           [(textfield, ''maxLengthField'')]
       \<and> map max_length (fields_named ''maxLengthField'' (document_at w' p)) = [Some 10]
       \<and> map kind_and_name (fields_named ''readOnly'' (document_at w' p)) =
           [(textfield, ''readOnly'')]
       \<and> map default_value (fields_named ''readOnly'' (document_at w' p)) =
           [Some ''This cannot be changed'']
       \<and> map flags (fields_named ''readOnly'' (document_at w' p)) = [Some ''readOnly'']
       \<and> map kind_and_name (fields_named ''password'' (document_at w' p)) =
           [(textfield, ''password'')]
       \<and> map flags (fields_named ''password'' (document_at w' p)) = [Some ''password'']
       \<and> map kind_and_name (fields_named ''comments'' (document_at w' p)) =
           [(textfield, ''comments'')]
       \<and> map flags (fields_named ''comments'' (document_at w' p)) = [Some ''multiline''])"
  (is "?total \<and> (?returns \<longrightarrow> ?fields)")
proof (rule conjI)
  show ?total
  proof (rule impI)
    assume "\<forall>w0. \<forall>k \<in> set text_fields_calls. raises e w0 p k = None"
    then show "fst (create_text_fields_pdf e p w) = Ok"
      unfolding create_text_fields_pdf_def by (intro generate_total) blast
  qed
  show "?returns \<longrightarrow> ?fields"
  proof (rule impI)
    assume ?returns
    from text_fields_document [OF this] show ?fields
      by (simp add: text_fields_calls_def fields_named_def kind_and_name_def default_value_def
            flags_def max_length_def kw_def)
  qed
qed

theorem text_field_flags_witness:
  "fst (create_text_fields_pdf quiet ''text-fields.pdf'' fresh) = Ok
   \<and> map max_length
        (fields_named ''maxLengthField'' (sample_document create_text_fields_pdf ''text-fields.pdf''))
      = [Some 10]
   \<and> map flags
        (fields_named ''readOnly'' (sample_document create_text_fields_pdf ''text-fields.pdf''))
      = [Some ''readOnly'']"
proof -
  have none: "\<forall>w0. \<forall>k \<in> set text_fields_calls. raises quiet w0 ''text-fields.pdf'' k = None"
    by (simp add: quiet_def)
  from text_field_flags [of quiet "''text-fields.pdf''" fresh] none
  have ok: "fst (create_text_fields_pdf quiet ''text-fields.pdf'' fresh) = Ok"
    by blast
  from text_field_flags [of quiet "''text-fields.pdf''" fresh
      "snd (create_text_fields_pdf quiet ''text-fields.pdf'' fresh)"] run_ok [OF ok] ok
  show ?thesis
    by (simp add: sample_document_def)
qed

section \<open>The basic-form generator\<close>

lemma basic_form_fields:
  "map kind_and_name (fields_of (butlast basic_form_calls)) =
     [(textfield, ''name''), (textfield, ''email''), (checkbox, ''subscribe''),
      (radio, ''gender''), (radio, ''gender''), (choice, ''country'')]"
  by (simp add: basic_form_calls_def kind_and_name_def kw_def)

text \<open>
  C5. If none of its calls raises, the basic-form generator returns; and the fields of the
  document that it saves when it returns are exactly, in order: the text fields \<open>name\<close>
  and \<open>email\<close>, the checkbox \<open>subscribe\<close>, two radio widgets named \<open>gender\<close>, and the
  choice field \<open>country\<close>, which has exactly three options.
\<close>

theorem basic_form_field_set:
  "((\<forall>w0. \<forall>k \<in> set basic_form_calls. raises e w0 p k = None)
      \<longrightarrow> fst (create_basic_form_pdf e p w) = Ok)
   \<and> (create_basic_form_pdf e p w = (Ok, w') \<longrightarrow>
       map kind_and_name (fields_of (document_at w' p)) =
           [(textfield, ''name''), (textfield, ''email''), (checkbox, ''subscribe''),
            (radio, ''gender''), (radio, ''gender''), (choice, ''country'')]
       \<and> map (length \<circ> option_list) (fields_named ''country'' (document_at w' p)) = [3])"
  (is "?total \<and> (?returns \<longrightarrow> ?fields)")
proof (rule conjI)
  show ?total
  proof (rule impI)
    assume "\<forall>w0. \<forall>k \<in> set basic_form_calls. raises e w0 p k = None"
    then show "fst (create_basic_form_pdf e p w) = Ok"
      unfolding create_basic_form_pdf_def by (intro generate_total) blast
  qed
  show "?returns \<longrightarrow> ?fields"
  proof (rule impI)
    assume ?returns
    from basic_form_document [OF this] show ?fields
      by (simp add: basic_form_fields)
         (simp add: basic_form_calls_def fields_named_def option_list_def kw_def)
  qed
qed

theorem basic_form_field_set_witness:
  "fst (create_basic_form_pdf quiet ''basic-form.pdf'' fresh) = Ok
   \<and> map kind_and_name
        (fields_of (sample_document create_basic_form_pdf ''basic-form.pdf'')) =
       [(textfield, ''name''), (textfield, ''email''), (checkbox, ''subscribe''),
        (radio, ''gender''), (radio, ''gender''), (choice, ''country'')]"
proof -
  have none: "\<forall>w0. \<forall>k \<in> set basic_form_calls. raises quiet w0 ''basic-form.pdf'' k = None"
    by (simp add: quiet_def)
  from basic_form_field_set [of quiet "''basic-form.pdf''" fresh] none
  have ok: "fst (create_basic_form_pdf quiet ''basic-form.pdf'' fresh) = Ok"
    by blast
  from basic_form_field_set [of quiet "''basic-form.pdf''" fresh
      "snd (create_basic_form_pdf quiet ''basic-form.pdf'' fresh)"] run_ok [OF ok] ok
  show ?thesis
    by (simp add: sample_document_def)
qed

text \<open>
  C10. In the document that the basic-form generator saves, both radio widgets named
  \<open>gender\<close> (values \<open>male\<close> and \<open>female\<close>) are emitted with \<open>selected\<close> false: the group has
  no default selection.
\<close>

theorem gender_no_default:
  assumes "create_basic_form_pdf e p w = (Ok, w')"
  shows "map kind_and_name (fields_named ''gender'' (document_at w' p)) =
           [(radio, ''gender''), (radio, ''gender'')]
       \<and> map default_value (fields_named ''gender'' (document_at w' p)) =
           [Some ''male'', Some ''female'']
       \<and> map is_selected (fields_named ''gender'' (document_at w' p)) =
           [Some False, Some False]"
  using basic_form_document [OF assms]
  by (simp add: basic_form_calls_def fields_named_def kind_and_name_def default_value_def
        is_selected_def kw_def)

theorem gender_no_default_witness:
  "fst (create_basic_form_pdf quiet ''basic-form.pdf'' fresh) = Ok
   \<and> map is_selected
        (fields_named ''gender'' (sample_document create_basic_form_pdf ''basic-form.pdf''))
      = [Some False, Some False]"
  using quiet_basic_ok gender_no_default [OF run_ok [OF quiet_basic_ok]]
  by (simp add: sample_document_def)

section \<open>Properties of all four generators\<close>

lemma generators_cases:
  assumes "i < length generators"
  obtains "i = 0" "generators ! i = create_basic_form_pdf"
  | "i = 1" "generators ! i = create_text_fields_pdf"
  | "i = 2" "generators ! i = create_choice_fields_pdf"
  | "i = 3" "generators ! i = create_mixed_form_pdf"
proof -
  from assms have "i = 0 \<or> i = 1 \<or> i = 2 \<or> i = 3"
    by (simp add: generators_def) arith
  then show thesis
    using that by (auto simp: generators_def)
qed

lemma generators_nth:
  "generators ! 0 = create_basic_form_pdf" "generators ! 1 = create_text_fields_pdf"
  "generators ! 2 = create_choice_fields_pdf" "generators ! 3 = create_mixed_form_pdf"
  "length generators = 4"
  by (simp_all add: generators_def)

lemma calls_nonempty:
  "basic_form_calls \<noteq> []" "text_fields_calls \<noteq> []" "choice_fields_calls \<noteq> []"
  "mixed_form_calls s \<noteq> []"
  by (simp_all add: basic_form_calls_def text_fields_calls_def choice_fields_calls_def
        mixed_form_calls_def)

subsection \<open>Defaults of choice fields\<close>

lemma list_all_filter: "list_all P (filter Q fs) = list_all (\<lambda>f. Q f \<longrightarrow> P f) fs"
  by (induction fs) auto

lemma choice_defaults_static:
  "list_all (\<lambda>f. is_choice f \<longrightarrow> choice_default_ok f) (fields_of basic_form_calls)"
  "list_all (\<lambda>f. is_choice f \<longrightarrow> choice_default_ok f) (fields_of text_fields_calls)"
  "list_all (\<lambda>f. is_choice f \<longrightarrow> choice_default_ok f) (fields_of choice_fields_calls)"
  "list_all (\<lambda>f. is_choice f \<longrightarrow> choice_default_ok f) (fields_of (mixed_form_calls s))"
  by (simp_all add: basic_form_calls_def text_fields_calls_def choice_unfold
        mixed_form_calls_def is_choice_def choice_default_ok_def option_list_def kw_def
        options1_def states_def countries_def)

lemma choice_names_static:
  "map (name \<circ> snd) (filter is_choice (fields_of basic_form_calls)) = [''country'']"
  "map (name \<circ> snd) (filter is_choice (fields_of text_fields_calls)) = []"
  "map (name \<circ> snd) (filter is_choice (fields_of choice_fields_calls))
     = [''simpleDropdown'', ''state'']"
  "map (name \<circ> snd) (filter is_choice (fields_of (mixed_form_calls s))) = [''countrySelect'']"
  by (simp_all add: basic_form_calls_def text_fields_calls_def choice_unfold
        mixed_form_calls_def is_choice_def kw_def)

text \<open>The position of the last choice call of each generator that has one.\<close>

lemma last_choice_basic:
  "16 < length basic_form_calls"
  "list_all (\<lambda>k. \<not> empty_choice k) (take 16 basic_form_calls)"
  "filter is_choice (fields_of (drop (Suc 16) basic_form_calls)) = []"
  "map (name \<circ> snd) (filter is_choice (fields_of (take 17 basic_form_calls)))
     = [''country'']"
  by (simp_all add: basic_form_calls_def is_choice_def kw_def)

lemma last_choice_choice:
  "list_all (\<lambda>k. \<not> empty_choice k) (take 7 choice_fields_calls)"
  "filter is_choice (fields_of (drop (Suc 7) choice_fields_calls)) = []"
  "map (name \<circ> snd) (filter is_choice (fields_of (take 8 choice_fields_calls)))
     = [''simpleDropdown'', ''state'']"
  by (simp_all add: choice_unfold is_choice_def kw_def)

lemma last_choice_mixed:
  "list_all (\<lambda>k. \<not> empty_choice k) (take 14 (mixed_form_calls s))"
  "filter is_choice (fields_of (drop (Suc 14) (mixed_form_calls s))) = []"
  "map (name \<circ> snd) (filter is_choice (fields_of (take 15 (mixed_form_calls s))))
     = [''countrySelect'']"
  by (simp_all add: mixed_form_calls_def is_choice_def kw_def)

lemma only_empty_choice_raises:
  assumes "\<forall>w0 k. raises e w0 p k \<noteq> None \<longrightarrow> empty_choice k"
    and "list_all (\<lambda>k. \<not> empty_choice k) ks" and "k \<in> set ks"
  shows "raises e w0 p k = None"
  using assms by (cases "raises e w0 p k") (auto simp: list_all_iff)

lemma choice_fields_of_run:
  assumes "calls \<noteq> []"
    and "list_all (\<lambda>f. is_choice f \<longrightarrow> choice_default_ok f) (fields_of calls)"
  shows "list_all choice_default_ok
           (filter is_choice (fields_of (made p w (snd (generate calls e p w)))))"
    and "set (map (name \<circ> snd)
           (filter is_choice (fields_of (made p w (snd (generate calls e p w))))))
         \<subseteq> set (map (name \<circ> snd) (filter is_choice (fields_of calls)))"
  using made_fields_all [OF assms, of p w e] made_fields_subset [OF assms(1), of p w e]
  by (auto simp: list_all_filter)

lemma choice_names_of_run:
  assumes "j < length calls"
    and "\<forall>w0 k. raises e w0 p k \<noteq> None \<longrightarrow> empty_choice k"
    and "list_all (\<lambda>k. \<not> empty_choice k) (take j calls)"
    and "filter is_choice (fields_of (drop (Suc j) calls)) = []"
  shows "map (name \<circ> snd) (filter is_choice (fields_of (made p w (snd (generate calls e p w)))))
       = map (name \<circ> snd) (filter is_choice (fields_of (take (Suc j) calls)))"
proof -
  have "filter is_choice (fields_of (made p w (snd (generate calls e p w))))
      = filter is_choice (fields_of (take (Suc j) calls))"
    using assms(1) only_empty_choice_raises [OF assms(2,3)] assms(4) by (rule made_upto)
  then show ?thesis by simp
qed

text \<open>
  C8. In every run of any of the four generators, whether it returns or raises, every
  choice field that it emits is created with a default value that is empty or is the
  value component of one of its option pairs, and is one of \<open>country\<close> (basic form),
  \<open>simpleDropdown\<close> and \<open>state\<close> (choice fields) and \<open>countrySelect\<close> (mixed form); the
  text-fields generator emits none. Where only a choice call with the empty value can
  raise, each generator emits all of its choice fields.
\<close>

theorem choice_defaults_admissible:
  assumes "i < length generators"
  shows "list_all choice_default_ok
           (filter is_choice (fields_of (made p w (snd ((generators ! i) e p w)))))
       \<and> set (map (name \<circ> snd)
           (filter is_choice (fields_of (made p w (snd ((generators ! i) e p w))))))
         \<subseteq> set ([ [''country''], [], [''simpleDropdown'', ''state''], [''countrySelect''] ] ! i)
       \<and> ((\<forall>w0 k. raises e w0 p k \<noteq> None \<longrightarrow> empty_choice k) \<longrightarrow>
           map (name \<circ> snd)
             (filter is_choice (fields_of (made p w (snd ((generators ! i) e p w)))))
           = [ [''country''], [], [''simpleDropdown'', ''state''], [''countrySelect''] ] ! i)"
  using assms
proof (cases rule: generators_cases)
  case 1
  from choice_fields_of_run [OF calls_nonempty(1) choice_defaults_static(1), of p w e]
    choice_names_of_run [OF last_choice_basic(1) _ last_choice_basic(2,3), of e p w]
  show ?thesis
    unfolding 1(2) by (simp add: 1(1) create_basic_form_pdf_def choice_names_static last_choice_basic(4))
next
  case 2
  from choice_fields_of_run [OF calls_nonempty(2) choice_defaults_static(2), of p w e]
  show ?thesis
    unfolding 2(2)
    by (auto simp: 2(1) create_text_fields_pdf_def choice_names_static filter_empty_conv)
next
  case 3
  from choice_fields_of_run [OF calls_nonempty(3) choice_defaults_static(3), of p w e]
    choice_names_of_run [OF state_position(2) _ last_choice_choice(1,2), of e p w]
  show ?thesis
    unfolding 3(2) by (simp add: 3(1) create_choice_fields_pdf_def choice_names_static last_choice_choice(3))
next
  case 4
  from choice_fields_of_run [where calls = "mixed_form_calls (now e)" and p = p and w = w
        and e = e, OF calls_nonempty(4) choice_defaults_static(4)]
    choice_names_of_run [where calls = "mixed_form_calls (now e)" and p = p and w = w
        and e = e, OF country_position(1) _ last_choice_mixed(1,2)]
  show ?thesis
    unfolding 4(2) by (simp add: 4(1) create_mixed_form_pdf_def choice_names_static last_choice_mixed(3))
qed

theorem choice_defaults_admissible_witness:
  "fst ((generators ! 2) rejects_empty_choice ''choice-fields.pdf'' fresh)
     = Raised ''ValueError''
   \<and> list_all choice_default_ok
        (filter is_choice (fields_of (made ''choice-fields.pdf'' fresh
           (snd ((generators ! 2) rejects_empty_choice ''choice-fields.pdf'' fresh)))))
   \<and> map (name \<circ> snd)
        (filter is_choice (fields_of (made ''choice-fields.pdf'' fresh
           (snd ((generators ! 2) rejects_empty_choice ''choice-fields.pdf'' fresh)))))
      = [''simpleDropdown'', ''state'']"
proof -
  have i: "(2::nat) < length generators"
    by (simp add: generators_nth)
  have h: "\<forall>w0 k. raises rejects_empty_choice w0 ''choice-fields.pdf'' k \<noteq> None
             \<longrightarrow> empty_choice k"
    by (simp add: rejects_empty_choice_def)
  from choice_defaults_admissible [OF i, of "''choice-fields.pdf''" fresh rejects_empty_choice]
    h rejects_choice_run(1)
  show ?thesis
    by (simp add: generators_nth)
qed

subsection \<open>Widgets and the page\<close>

lemma within_unfold:
  "within_page (pw, ph) (x0, y0, x1, y1) =
     (0 \<le> x0 \<and> 0 \<le> y0 \<and> x0 \<le> x1 \<and> y0 \<le> y1 \<and> x1 \<le> pw \<and> y1 \<le> ph)"
  by (simp add: within_page_def)

lemma first_call:
  "basic_form_calls = Canvas (612, 792) # tl basic_form_calls"
  "text_fields_calls = Canvas (612, 792) # tl text_fields_calls"
  "choice_fields_calls = Canvas (612, 792) # tl choice_fields_calls"
  "mixed_form_calls s = Canvas (612, 792) # tl (mixed_form_calls s)"
  by (simp_all add: basic_form_calls_def text_fields_calls_def choice_fields_calls_def
        mixed_form_calls_def letter_def)

lemma in_page_static:
  assumes "0 \<le> default_size d" and "default_size d \<le> 194"
  shows "list_all (within_page (612, 792) \<circ> bbox d) (fields_of basic_form_calls)"
    and "list_all (within_page (612, 792) \<circ> bbox d) (fields_of text_fields_calls)"
    and "list_all (within_page (612, 792) \<circ> bbox d) (fields_of choice_fields_calls)"
    and "list_all (within_page (612, 792) \<circ> bbox d) (fields_of (mixed_form_calls s))"
  using assms
  by (simp_all add: basic_form_calls_def text_fields_calls_def choice_unfold
        mixed_form_calls_def bbox_def within_unfold kw_def)

lemma page_of_run:
  assumes "calls = Canvas sz # tl calls" and "list_all P (fields_of calls)"
  shows "page_size (made p w (snd (generate calls e p w))) = Some sz
       \<and> list_all P (fields_of (made p w (snd (generate calls e p w))))"
proof -
  from assms(1) have "calls \<noteq> []" by auto
  from made_fields_all [OF this assms(2), of p w e]
    made_page [of p w sz "tl calls" e] assms(1)
  show ?thesis by simp
qed

text \<open>
  C9. In every run of any of the four generators, whether it returns or raises, the
  canvas has the 612 by 792 letter page and the bounding box of every widget that the
  run emits lies within it: from \<open>(x, y)\<close> to \<open>(x + width, y + height)\<close> for text and choice
  fields, which all pass their width and height, and from \<open>(x, y)\<close> to
  \<open>(x + size, y + size)\<close> for checkboxes and radio buttons, for every default size of
  the library from 0 to 194 (the library's own is 20).
\<close>

theorem widgets_within_page:
  assumes "i < length generators"
    and "0 \<le> default_size d" and "default_size d \<le> 194"
  shows "page_size (made p w (snd ((generators ! i) e p w))) = Some (612, 792)
       \<and> list_all (within_page (612, 792) \<circ> bbox d)
           (fields_of (made p w (snd ((generators ! i) e p w))))"
  using assms(1)
proof (cases rule: generators_cases)
  case 1
  from page_of_run [OF first_call(1) in_page_static(1) [OF assms(2,3)], of p w e]
  show ?thesis unfolding 1(2) by (simp add: create_basic_form_pdf_def)
next
  case 2
  from page_of_run [OF first_call(2) in_page_static(2) [OF assms(2,3)], of p w e]
  show ?thesis unfolding 2(2) by (simp add: create_text_fields_pdf_def)
next
  case 3
  from page_of_run [OF first_call(3) in_page_static(3) [OF assms(2,3)], of p w e]
  show ?thesis unfolding 3(2) by (simp add: create_choice_fields_pdf_def)
next
  case 4
  from page_of_run [where calls = "mixed_form_calls (now e)" and p = p and w = w and e = e,
      OF first_call(4) in_page_static(4) [OF assms(2,3)]]
  show ?thesis unfolding 4(2) by (simp add: create_mixed_form_pdf_def)
qed

theorem widgets_within_page_witness:
  "0 \<le> default_size reportlab_defaults \<and> default_size reportlab_defaults \<le> 194
   \<and> map kind_and_name (fields_of (made ''mixed-form.pdf'' fresh
        (snd ((generators ! 3) rejects_empty_choice ''mixed-form.pdf'' fresh))))
      = [(textfield, ''firstName''), (textfield, ''lastName''), (textfield, ''emailAddress''),
         (textfield, ''age''), (choice, ''countrySelect'')]
   \<and> page_size (made ''mixed-form.pdf'' fresh
        (snd ((generators ! 3) rejects_empty_choice ''mixed-form.pdf'' fresh)))
      = Some (612, 792)
   \<and> list_all (within_page (612, 792) \<circ> bbox reportlab_defaults)
        (fields_of (made ''mixed-form.pdf'' fresh
           (snd ((generators ! 3) rejects_empty_choice ''mixed-form.pdf'' fresh))))"
proof -
  have i: "(3::nat) < length generators"
    by (simp add: generators_nth)
  have lo: "0 \<le> default_size reportlab_defaults"
    and hi: "default_size reportlab_defaults \<le> 194"
    by (simp_all add: reportlab_defaults_def)
  have "map kind_and_name (fields_of (made ''mixed-form.pdf'' fresh
        (snd ((generators ! 3) rejects_empty_choice ''mixed-form.pdf'' fresh))))
      = [(textfield, ''firstName''), (textfield, ''lastName''), (textfield, ''emailAddress''),
         (textfield, ''age''), (choice, ''countrySelect'')]"
    by (simp add: generators_nth rejects_mixed_run)
       (simp add: mixed_form_calls_def kind_and_name_def kw_def)
  with widgets_within_page [OF i lo hi, of "''mixed-form.pdf''" fresh rejects_empty_choice]
    lo hi
  show ?thesis by simp
qed

subsection \<open>Two runs of one generator\<close>











section \<open>main: an exception during generation\<close>

lemma only_on_mono: "only_on ps ev \<Longrightarrow> set ps \<subseteq> set qs \<Longrightarrow> only_on qs ev"
  by (cases ev) auto

lemma only_on_not_raise: "list_all (only_on ps) t \<Longrightarrow> Raise p m \<notin> set t"
  by (auto simp: list_all_iff)

lemma run_calls_trace:
  "run_calls e p doc ks w = (r, w') \<Longrightarrow>
     (case r of Ok \<Rightarrow> quietly [p] w w' | Raised m \<Rightarrow> raising [p] p m w w')"
proof (induction ks arbitrary: doc w)
  case Nil
  then show ?case by (auto simp: quietly_def)
next
  case (Cons k ks)
  show ?case
  proof (cases "raises e w p k")
    case (Some msg)
    with Cons.prems have "r = Raised msg" and "trace w' = trace w @ [Called p k] @ [Raise p msg]"
      by auto
    then show ?thesis
      unfolding raising_def by (auto intro!: exI [of _ "[Called p k]"])
  next
    case None
    define w2 where "w2 = w\<lparr>trace := trace w @ [Called p k],
               files := (if k = Save then (files w)(p \<mapsto> doc) else files w),
               stamps := (if k = Save then (stamps w)(p \<mapsto> creation_date e)
                          else stamps w)\<rparr>"
    from None Cons.prems have run: "run_calls e p (doc @ [k]) ks w2 = (r, w')"
      by (simp add: w2_def)
    have tr: "trace w2 = trace w @ [Called p k]"
      by (simp add: w2_def)
    show ?thesis
    proof (cases r)
      case Ok
      with Cons.IH [OF run] obtain t where "trace w' = trace w2 @ t" "list_all (only_on [p]) t"
        by (auto simp: quietly_def)
      with tr Ok show ?thesis
        by (auto simp: quietly_def intro!: exI [of _ "Called p k # t"])
    next
      case (Raised m)
      with Cons.IH [OF run] obtain t where
        "trace w' = trace w2 @ t @ [Raise p m]" "list_all (only_on [p]) t"
        by (auto simp: raising_def)
      with tr Raised show ?thesis
        by (auto simp: raising_def intro!: exI [of _ "Called p k # t"])
    qed
  qed
qed

lemma generate_quietly:
  assumes "generate calls e p w = (Ok, w')"
  shows "quietly [p] w w'"
proof -
  obtain r w1 where r: "run_calls e p [] calls w = (r, w1)"
    by (cases "run_calls e p [] calls w")
  with assms have ok: "r = Ok" and w': "trace w' = trace w1 @ [Print (''Created: '' @ p)]"
    by (auto simp: generate_def split: outcome.splits)
  from run_calls_trace [OF r] ok obtain t where "trace w1 = trace w @ t" "list_all (only_on [p]) t"
    by (auto simp: quietly_def)
  with w' show ?thesis
    by (auto simp: quietly_def intro!: exI [of _ "t @ [Print (''Created: '' @ p)]"])
qed

lemma generate_raising:
  assumes "generate calls e p w = (Raised m, w')"
  shows "raising [p] p m w w'"
proof -
  obtain r w1 where r: "run_calls e p [] calls w = (r, w1)"
    by (cases "run_calls e p [] calls w")
  with assms have "r = Raised m" and "w' = w1"
    by (auto simp: generate_def split: outcome.splits)
  with run_calls_trace [OF r] show ?thesis
    by simp
qed

lemma quietly_trans:
  assumes "quietly ps w w1" and "quietly qs w1 w2"
  shows "quietly (ps @ qs) w w2"
proof -
  from assms obtain t u where
    t: "trace w1 = trace w @ t" "list_all (only_on ps) t" and
    u: "trace w2 = trace w1 @ u" "list_all (only_on qs) u"
    by (auto simp: quietly_def)
  have "list_all (only_on (ps @ qs)) (t @ u)"
    using t(2) u(2) by (auto simp: list_all_iff intro: only_on_mono)
  with t(1) u(1) show ?thesis
    by (auto simp: quietly_def)
qed

lemma quietly_raising:
  assumes "quietly ps w w1" and "raising qs p m w1 w2"
  shows "raising (ps @ qs) p m w w2"
proof -
  from assms obtain t u where
    t: "trace w1 = trace w @ t" "list_all (only_on ps) t" and
    u: "trace w2 = trace w1 @ u @ [Raise p m]" "list_all (only_on qs) u"
    by (auto simp: quietly_def raising_def)
  have "list_all (only_on (ps @ qs)) (t @ u)"
    using t(2) u(2) by (auto simp: list_all_iff intro: only_on_mono)
  with t(1) u(1) show ?thesis
    unfolding raising_def by (auto intro!: exI [of _ "t @ u"])
qed

lemma then_do_cases:
  assumes "then_do f g w = (r, w')"
  obtains (first) m where "f w = (Raised m, w')" "r = Raised m"
  | (second) w1 where "f w = (Ok, w1)" "g w1 = (r, w')"
proof -
  obtain r1 w1 where f: "f w = (r1, w1)"
    by (cases "f w")
  show thesis
  proof (cases r1)
    case Ok
    with f assms second show thesis
      by (simp add: then_do_def)
  next
    case (Raised m)
    with f assms have "f w = (Raised m, w')" and "r = Raised m"
      by (simp_all add: then_do_def)
    then show thesis
      by (rule first)
  qed
qed

lemma generators_quietly:
  assumes "g \<in> set generators" and "g e p w = (Ok, w')"
  shows "quietly [p] w w'"
  using assms
  by (auto simp: generators_def create_basic_form_pdf_def create_text_fields_pdf_def
        create_choice_fields_pdf_def create_mixed_form_pdf_def intro: generate_quietly)

lemma generators_raising:
  assumes "g \<in> set generators" and "g e p w = (Raised m, w')"
  shows "raising [p] p m w w'"
  using assms
  by (auto simp: generators_def create_basic_form_pdf_def create_text_fields_pdf_def
        create_choice_fields_pdf_def create_mixed_form_pdf_def intro: generate_raising)

lemma summary_quietly:
  assumes "then_do (print a) (then_do (print b) (then_do (print c) (then_do (print d)
             (then_do (print f) (print g))))) w = (r, w')"
  shows "r = Ok \<and> quietly [] w w'"
  using assms by (auto simp: then_do_def print_def quietly_def)

lemma try_body_trace:
  assumes "try_body e d w = (r, w')"
  defines "ps \<equiv> [join d [''basic-form.pdf''], join d [''text-fields.pdf''],
                 join d [''choice-fields.pdf''], join d [''mixed-form.pdf'']]"
  shows "(r = Ok \<and> quietly ps w w')
       \<or> (\<exists>i m. i < 4 \<and> r = Raised m \<and> raising (take (Suc i) ps) (ps ! i) m w w')"
  using assms(1) [unfolded try_body_def]
proof (cases rule: then_do_cases)
  case (first m)
  from generators_raising [where g = create_basic_form_pdf, OF _ first(1)] have "raising (take (Suc 0) ps) (ps ! 0) m w w'"
    by (simp add: generators_def ps_def)
  with first(2) show ?thesis
    by (intro disjI2 exI [of _ 0] exI [of _ m]) simp
next
  case gen1: (second w1)
  from generators_quietly [where g = create_basic_form_pdf, OF _ gen1(1)] have q1: "quietly [ps ! 0] w w1"
    by (simp add: generators_def ps_def)
  from gen1(2) show ?thesis
  proof (cases rule: then_do_cases)
    case (first m)
    from generators_raising [where g = create_text_fields_pdf, OF _ first(1)] have "raising [ps ! 1] (ps ! 1) m w1 w'"
      by (simp add: generators_def ps_def)
    from quietly_raising [OF q1 this] have "raising (take (Suc 1) ps) (ps ! 1) m w w'"
      by (simp add: ps_def)
    with first(2) show ?thesis
      by (intro disjI2 exI [of _ 1] exI [of _ m]) simp
  next
    case gen2: (second w2)
    from generators_quietly [where g = create_text_fields_pdf, OF _ gen2(1)] have "quietly [ps ! 1] w1 w2"
      by (simp add: generators_def ps_def)
    from quietly_trans [OF q1 this] have q2: "quietly [ps ! 0, ps ! 1] w w2"
      by simp
    from gen2(2) show ?thesis
    proof (cases rule: then_do_cases)
      case (first m)
      from generators_raising [where g = create_choice_fields_pdf, OF _ first(1)] have "raising [ps ! 2] (ps ! 2) m w2 w'"
        by (simp add: generators_def ps_def)
      from quietly_raising [OF q2 this] have "raising (take (Suc 2) ps) (ps ! 2) m w w'"
        by (simp add: ps_def)
      with first(2) show ?thesis
        by (intro disjI2 exI [of _ 2] exI [of _ m]) simp
    next
      case gen3: (second w3)
      from generators_quietly [where g = create_choice_fields_pdf, OF _ gen3(1)] have "quietly [ps ! 2] w2 w3"
        by (simp add: generators_def ps_def)
      from quietly_trans [OF q2 this] have q3: "quietly [ps ! 0, ps ! 1, ps ! 2] w w3"
        by simp
      from gen3(2) show ?thesis
      proof (cases rule: then_do_cases)
        case (first m)
        from generators_raising [where g = create_mixed_form_pdf, OF _ first(1)] have "raising [ps ! 3] (ps ! 3) m w3 w'"
          by (simp add: generators_def ps_def)
        from quietly_raising [OF q3 this] have "raising (take (Suc 3) ps) (ps ! 3) m w w'"
          by (simp add: ps_def)
        with first(2) show ?thesis
          by (intro disjI2 exI [of _ 3] exI [of _ m]) simp
      next
        case gen4: (second w4)
        from generators_quietly [where g = create_mixed_form_pdf, OF _ gen4(1)] have "quietly [ps ! 3] w3 w4"
          by (simp add: generators_def ps_def)
        from quietly_trans [OF q3 this] have q4: "quietly ps w w4"
          by (simp add: ps_def)
        from summary_quietly [OF gen4(2)] have "r = Ok" and "quietly [] w4 w'"
          by simp_all
        with quietly_trans [OF q4] show ?thesis
          by fastforce
      qed
    qed
  qed
qed

lemma output_paths_distinct: "distinct (output_paths file)"
  by (simp add: output_paths_def join_def join2_def Let_def)

lemma save_fails_raise:
  "Raise ''/repo/docs/test-forms/text-fields.pdf'' ''Permission denied''
     \<in> set (drop (length (trace fresh))
         (trace (snd (main save_fails ''/repo/scripts/generate_simple_forms.py'' fresh))))"
  by (simp add: main_def try_body_def then_do_def create_basic_form_pdf_def
        create_text_fields_pdf_def generate_def basic_form_calls_def text_fields_calls_def
        save_fails_def fresh_def dirname_def join_def join2_def)

text \<open>
  C7. If a library call raises an exception while \<open>main\<close> generates the documents, then
  \<open>main\<close> ends with \<open>sys.exit(1)\<close>, a non-zero exit status; the exception belongs to one
  of the four documents; the last thing the program does is to print "Error generating
  PDFs: " followed by the exception's message, right after the exception; and every
  library call made before the exception is on the canvas of the failing document or of
  one before it, so no later document is attempted. The four output paths are distinct.
\<close>

theorem main_aborts_on_exception:
  assumes "main e file w = (st, w')"
    and "Raise p msg \<in> set (drop (length (trace w)) (trace w'))"
  shows "st = SysExit 1 \<and> exit_status st \<noteq> 0
       \<and> (\<exists>i t. i < 4 \<and> p = output_paths file ! i
             \<and> trace w' = trace w @ t @ [Raise p msg, Print (''Error generating PDFs: '' @ msg)]
             \<and> list_all (only_on (take (Suc i) (output_paths file))) t)
       \<and> distinct (output_paths file)"
proof -
  define d where "d = join (dirname (dirname file)) [''docs'', ''test-forms'']"
  define w0 where
    "w0 = w\<lparr>trace := trace w @ [Makedirs d, Print ''Generating test PDF forms...'']\<rparr>"
  have ps: "output_paths file =
      [join d [''basic-form.pdf''], join d [''text-fields.pdf''],
       join d [''choice-fields.pdf''], join d [''mixed-form.pdf'']]"
    by (simp add: output_paths_def d_def Let_def)
  show ?thesis
  proof (cases "makedirs_raises e d")
    case (Some m)
    with assms(1) have "trace w' = trace w @ [Makedirs d]"
      by (auto simp: main_def d_def)
    with assms(2) show ?thesis
      by simp
  next
    case None
    obtain r w1 where tb: "try_body e d w0 = (r, w1)"
      by (cases "try_body e d w0")
    from try_body_trace [OF tb] show ?thesis
    proof (elim disjE conjE exE)
      assume ok: "r = Ok"
        and "quietly [join d [''basic-form.pdf''], join d [''text-fields.pdf''],
               join d [''choice-fields.pdf''], join d [''mixed-form.pdf'']] w0 w1"
      then obtain t where t: "trace w1 = trace w0 @ t" "list_all (only_on (output_paths file)) t"
        by (auto simp: quietly_def ps)
      from assms(1) None tb ok have "w' = w1"
        by (simp add: main_def Let_def d_def w0_def)
      with t(1) have "drop (length (trace w)) (trace w') =
          [Makedirs d, Print ''Generating test PDF forms...''] @ t"
        by (simp add: w0_def)
      with assms(2) only_on_not_raise [OF t(2)] show ?thesis
        by auto
    next
      fix i m
      assume i: "i < 4" and r: "r = Raised m"
        and "raising (take (Suc i) [join d [''basic-form.pdf''], join d [''text-fields.pdf''],
               join d [''choice-fields.pdf''], join d [''mixed-form.pdf'']])
             ([join d [''basic-form.pdf''], join d [''text-fields.pdf''],
               join d [''choice-fields.pdf''], join d [''mixed-form.pdf''] ] ! i) m w0 w1"
      then obtain t where t: "trace w1 = trace w0 @ t @ [Raise (output_paths file ! i) m]"
          "list_all (only_on (take (Suc i) (output_paths file))) t"
        by (auto simp: raising_def ps)
      from assms(1) None tb r have st: "st = SysExit 1"
        and w': "trace w' = trace w1 @ [Print (''Error generating PDFs: '' @ m)]"
        by (auto simp: main_def Let_def d_def w0_def)
      let ?t = "[Makedirs d, Print ''Generating test PDF forms...''] @ t"
      from w' t(1) have tr: "trace w' =
          trace w @ ?t @ [Raise (output_paths file ! i) m,
                           Print (''Error generating PDFs: '' @ m)]"
        by (simp add: w0_def)
      with assms(2) only_on_not_raise [OF t(2)] have same: "p = output_paths file ! i" "msg = m"
        by auto
      have "list_all (only_on (take (Suc i) (output_paths file))) ?t"
        using t(2) by simp
      with tr same i have "\<exists>i t. i < 4 \<and> p = output_paths file ! i
             \<and> trace w' = trace w @ t @ [Raise p msg, Print (''Error generating PDFs: '' @ msg)]
             \<and> list_all (only_on (take (Suc i) (output_paths file))) t"
        by blast
      with st show ?thesis
        by (simp add: output_paths_distinct)
    qed
  qed
qed

theorem main_aborts_on_exception_witness:
  "Raise ''/repo/docs/test-forms/text-fields.pdf'' ''Permission denied''
     \<in> set (drop (length (trace fresh))
         (trace (snd (main save_fails ''/repo/scripts/generate_simple_forms.py'' fresh))))
   \<and> fst (main save_fails ''/repo/scripts/generate_simple_forms.py'' fresh) = SysExit 1
   \<and> last (trace (snd (main save_fails ''/repo/scripts/generate_simple_forms.py'' fresh)))
      = Print ''Error generating PDFs: Permission denied''"
  using save_fails_raise
    main_aborts_on_exception [OF prod.collapse [symmetric] save_fails_raise]
  by auto

end
